theory Spec2Isabelle
  imports Complex_Main "HOL-Library.Sublist"
begin

section \<open>Playback of recorded voltage traces\<close>

text \<open>
  The three scripts of the repository run a simulation and then replay the recorded
  traces frame by frame. This theory embeds the replay code:
  the extraction of the traces from \<^verbatim>\<open>sim.allSimData\<close>, the callbacks
  \<^verbatim>\<open>init\<close> and \<^verbatim>\<open>update\<close>, and the frame schedule handed to the
  animation driver.

  Time stamps and voltages are Python floats. The code only compares, slices and stores
  them, and a comparison of two finite floats agrees with the comparison of the
  rationals they denote, so they are modelled as \<^typ>\<open>real\<close>. Frame numbers come from
  \<^verbatim>\<open>range(num_frames)\<close> and are natural numbers.
\<close>

subsection \<open>Python values and errors\<close>

datatype error = KeyError | TypeError | IndexError

text \<open>
  A value stored in \<^verbatim>\<open>sim.allSimData\<close>: a plain sequence of numbers, or a
  dictionary from cell names to sequences (the shape of a recorded trace).
\<close>

datatype pyval = Seq "real list" | Dict "string \<rightharpoonup> real list"

type_synonym simdata = "string \<rightharpoonup> pyval"

text \<open>\<^verbatim>\<open>d.get(k, default)\<close>\<close>

definition dict_get :: "('k \<rightharpoonup> 'v) \<Rightarrow> 'k \<Rightarrow> 'v \<Rightarrow> 'v" where
  "dict_get d k dflt = (case d k of None \<Rightarrow> dflt | Some v \<Rightarrow> v)"

text \<open>\<^verbatim>\<open>xs[i]\<close> on a list with a Python integer: a negative index counts from the
  end, anything outside raises.\<close>

definition py_index :: "'a list \<Rightarrow> int \<Rightarrow> error + 'a" where
  "py_index xs i =
     (if 0 \<le> i \<and> i < int (length xs) then Inr (xs ! nat i)
      else if i < 0 \<and> - int (length xs) \<le> i then Inr (xs ! nat (int (length xs) + i))
      else Inl IndexError)"

text \<open>\<^verbatim>\<open>int(x)\<close> on a float truncates towards zero.\<close>

definition py_int :: "real \<Rightarrow> int" where
  "py_int x = (if x < 0 then \<lceil>x\<rceil> else \<lfloor>x\<rfloor>)"

subsection \<open>Extracting the traces\<close>

text \<open>
  \<^verbatim>\<open>temporal_summation_experiment.py\<close> lines 118-124 and
  \<^verbatim>\<open>inhibitory_version.py\<close> lines 101-107:
  \<^verbatim>\<open>
  if 'V_soma' in sim.allSimData and isinstance(sim.allSimData['V_soma'], dict):
      V_wide = sim.allSimData['V_soma'].get('cell_0', [])
      V_narrow = sim.allSimData['V_soma'].get('cell_1', [])
  else:
      V_wide = []
      V_narrow = []
  \<close>
  The result is the pair \<open>(V_wide, V_narrow)\<close>.
\<close>

definition load_V_wide_narrow :: "simdata \<Rightarrow> real list \<times> real list" where
  "load_V_wide_narrow allSimData =
     (case allSimData ''V_soma'' of
        None \<Rightarrow> ([], [])
      | Some (Seq xs) \<Rightarrow> ([], [])
      | Some (Dict d) \<Rightarrow> (dict_get d ''cell_0'' [], dict_get d ''cell_1'' []))"

text \<open>
  \<^verbatim>\<open>Excitation-inhibition_AMPA_GABA.py\<close> lines 147-148 subscript both levels:
  \<^verbatim>\<open>
  V_A = sim.allSimData['V_soma']['cell_0']
  V_B = sim.allSimData['V_soma']['cell_1']
  \<close>
  A missing key raises \<^verbatim>\<open>KeyError\<close>; subscripting a list with a string raises
  \<^verbatim>\<open>TypeError\<close>.
\<close>

definition V_soma_item :: "simdata \<Rightarrow> string \<Rightarrow> error + real list" where
  "V_soma_item allSimData cell =
     (case allSimData ''V_soma'' of
        None \<Rightarrow> Inl KeyError
      | Some (Seq xs) \<Rightarrow> Inl TypeError
      | Some (Dict d) \<Rightarrow> (case d cell of None \<Rightarrow> Inl KeyError | Some v \<Rightarrow> Inr v))"

definition load_V_A_B :: "simdata \<Rightarrow> error + (real list \<times> real list)" where
  "load_V_A_B allSimData =
     (case V_soma_item allSimData ''cell_0'' of
        Inl e \<Rightarrow> Inl e
      | Inr V_A \<Rightarrow>
          (case V_soma_item allSimData ''cell_1'' of
             Inl e \<Rightarrow> Inl e
           | Inr V_B \<Rightarrow> Inr (V_A, V_B)))"

subsection \<open>The animated scene\<close>

text \<open>
  The module-level variables the callbacks read and mutate: the recorded data
  (\<open>time\<close>, \<open>V_wide\<close>, \<open>V_narrow\<close>), the data of the two line artists as set by
  \<^verbatim>\<open>set_data\<close>, the list \<open>stim_lines\<close> of vertical markers on the axes (each
  stood for by its x position) and the visibility of \<open>summation_patch\<close>.
\<close>

record world =
  time :: "real list"
  V_wide :: "real list"
  V_narrow :: "real list"
  line_wide :: "real list \<times> real list"
  line_narrow :: "real list \<times> real list"
  stim_lines :: "real list"
  summation_patch :: bool

text \<open>\<^verbatim>\<open>simConfig.dt = 0.025\<close>\<close>

definition dt :: real where
  "dt = 0.025"

text \<open>
  \<^verbatim>\<open>
  def init():
      line_wide.set_data([], [])
      line_narrow.set_data([], [])
      for sl in stim_lines:
          sl.remove()
      stim_lines.clear()
      summation_patch.set_visible(False)
  \<close>
\<close>

definition init :: "world \<Rightarrow> world" where
  "init w = w\<lparr>line_wide := ([], []), line_narrow := ([], []),
              stim_lines := [], summation_patch := False\<rparr>"

text \<open>\<^verbatim>\<open>idx = min(frame * step, len(time))\<close>\<close>

definition reveal_idx :: "nat \<Rightarrow> nat \<Rightarrow> nat \<Rightarrow> nat" where
  "reveal_idx step frame N = min (frame * step) N"

text \<open>
  The three guarded appends of \<^verbatim>\<open>update\<close> (lines 161-167), run in order on the
  marker list:
  \<^verbatim>\<open>
  if idx >= int(21 / dt) and len(stim_lines) < 1: stim_lines.append(axvline(21))
  if idx >= int(26 / dt) and len(stim_lines) < 2: stim_lines.append(axvline(26))
  if idx >= int(61 / dt) and len(stim_lines) < 3: stim_lines.append(axvline(61))
  \<close>
\<close>

definition fire_markers :: "nat \<Rightarrow> real list \<Rightarrow> real list" where
  "fire_markers idx sl =
     (let sl1 = (if int idx \<ge> py_int (21 / dt) \<and> length sl < 1 then sl @ [21] else sl);
          sl2 = (if int idx \<ge> py_int (26 / dt) \<and> length sl1 < 2 then sl1 @ [26] else sl1);
          sl3 = (if int idx \<ge> py_int (61 / dt) \<and> length sl2 < 3 then sl2 @ [61] else sl2)
      in sl3)"

text \<open>
  \<^verbatim>\<open>update(frame)\<close>, with the local constant \<open>step\<close> as a parameter (16 in the two
  summation scripts). The read \<^verbatim>\<open>time[idx-1]\<close> is the only operation of the body
  that can raise; the conjunction short-circuits, so it is read only when \<open>idx > 0\<close>.
\<close>

definition update_with :: "nat \<Rightarrow> nat \<Rightarrow> world \<Rightarrow> error + world" where
  "update_with step frame w =
     (let idx = reveal_idx step frame (length (time w));
          w1 = w\<lparr>line_wide := (take idx (time w), take idx (V_wide w))\<rparr>;
          w2 = w1\<lparr>line_narrow := (take idx (time w), take idx (V_narrow w))\<rparr>;
          w3 = w2\<lparr>stim_lines := fire_markers idx (stim_lines w2)\<rparr>
      in if idx > 0 then
           (case py_index (time w) (int idx - 1) of
              Inl e \<Rightarrow> Inl e
            | Inr t \<Rightarrow> Inr (w3\<lparr>summation_patch := (20 \<le> t \<and> t \<le> 35)\<rparr>))
         else Inr (w3\<lparr>summation_patch := False\<rparr>))"

definition update :: "nat \<Rightarrow> world \<Rightarrow> error + world" where
  "update = update_with 16"

subsection \<open>The frame schedule\<close>

text \<open>
  \<^verbatim>\<open>num_frames = (len(time) // 8) + 20\<close>, and the animation is created with
  \<^verbatim>\<open>frames=num_frames, init_func=init, repeat=True\<close>: the driver calls \<open>init\<close>,
  then \<open>update\<close> with the frames \<open>0, 1, ..., num_frames - 1\<close>, one per timer tick, and
  when the frames are used up the next tick calls \<open>init\<close> again and starts the frame
  sequence afresh.
\<close>

definition num_frames :: "world \<Rightarrow> nat" where
  "num_frames w = length (time w) div 8 + 20"

fun run_frames :: "nat \<Rightarrow> nat list \<Rightarrow> world \<Rightarrow> error + world" where
  "run_frames step [] w = Inr w"
| "run_frames step (f # fs) w =
     (case update_with step f w of Inl e \<Rightarrow> Inl e | Inr w' \<Rightarrow> run_frames step fs w')"

record player =
  frame_seq :: "nat list"
  scene :: world

definition start :: "world \<Rightarrow> player" where
  "start w = \<lparr>frame_seq = [0..<num_frames w], scene = init w\<rparr>"

definition tick :: "player \<Rightarrow> error + player" where
  "tick p =
     (case frame_seq p of
        [] \<Rightarrow> Inr \<lparr>frame_seq = [0..<num_frames (scene p)], scene = init (scene p)\<rparr>
      | f # fs \<Rightarrow>
          (case update f (scene p) of
             Inl e \<Rightarrow> Inl e
           | Inr w \<Rightarrow> Inr \<lparr>frame_seq = fs, scene = w\<rparr>))"

fun ticks :: "nat \<Rightarrow> player \<Rightarrow> error + player" where
  "ticks 0 p = Inr p"
| "ticks (Suc n) p = (case tick p of Inl e \<Rightarrow> Inl e | Inr p' \<Rightarrow> ticks n p')"

subsection \<open>Observing a cycle\<close>

text \<open>
  The scene after the first \<open>k\<close> frames of a cycle (the driver has called \<open>init\<close> and
  then \<open>update\<close> on the frames \<open>0, ..., k - 1\<close>), and the markers that the tick of frame
  \<open>f\<close> appends to \<open>stim_lines\<close>: the part of the list after that tick that lies beyond
  its length before the tick.
\<close>

definition cycle_upto :: "nat \<Rightarrow> world \<Rightarrow> nat \<Rightarrow> error + world" where
  "cycle_upto step w k = run_frames step [0..<k] (init w)"

definition newly_fired :: "nat \<Rightarrow> world \<Rightarrow> nat \<Rightarrow> real list" where
  "newly_fired step w f =
     (case cycle_upto step w f of
        Inl e \<Rightarrow> []
      | Inr b \<Rightarrow>
          (case update_with step f b of
             Inl e \<Rightarrow> []
           | Inr a \<Rightarrow> drop (length (stim_lines b)) (stim_lines a)))"

text \<open>The reveal indices computed by the calls of one cycle of \<open>F\<close> frames, in call order.\<close>

definition idx_seq :: "nat \<Rightarrow> nat \<Rightarrow> nat \<Rightarrow> nat list" where
  "idx_seq step N F = map (\<lambda>frame. reveal_idx step frame N) [0..<F]"

text \<open>\<open>ceil (N / step)\<close> on natural numbers.\<close>

definition ceil_div :: "nat \<Rightarrow> nat \<Rightarrow> nat" where
  "ceil_div N step = (N + step - 1) div step"

text \<open>
  Frame \<open>f\<close> is the first frame of a cycle whose reveal index is at least \<open>K\<close>.
\<close>

definition first_reaching :: "nat \<Rightarrow> nat \<Rightarrow> nat \<Rightarrow> nat \<Rightarrow> bool" where
  "first_reaching step N K f \<longleftrightarrow>
     K \<le> reveal_idx step f N \<and> (\<forall>g<f. reveal_idx step g N < K)"

subsection \<open>Concrete recordings\<close>

text \<open>
  The engine records \<open>t\<close> on a fixed grid starting at 0: sample \<open>i\<close> carries the time
  \<open>i * h\<close>. A blank scene over a recording of \<open>n\<close> samples spaced \<open>h\<close> apart, both cells
  at the resting potential of -70 mV, serves as concrete input; \<open>probe t\<close> is the scene
  over a recording whose only sample has the time stamp \<open>t\<close>.
\<close>

definition fixed_step_times :: "nat \<Rightarrow> real \<Rightarrow> real list" where
  "fixed_step_times n h = map (\<lambda>i. real i * h) [0..<n]"

definition recording :: "nat \<Rightarrow> real \<Rightarrow> world" where
  "recording n h =
     \<lparr>time = fixed_step_times n h, V_wide = replicate n (- 70), V_narrow = replicate n (- 70),
      line_wide = ([], []), line_narrow = ([], []), stim_lines = [], summation_patch = False\<rparr>"

definition probe :: "real \<Rightarrow> world" where
  "probe t =
     \<lparr>time = [t], V_wide = [- 70], V_narrow = [- 70],
      line_wide = ([], []), line_narrow = ([], []), stim_lines = [], summation_patch = False\<rparr>"


text \<open>
  A recording in which the engine returned no trace for \<open>cell_0\<close>.
\<close>

definition cell_0_missing :: simdata where
  "cell_0_missing =
     [''t'' \<mapsto> Seq [0, 0.025], ''V_soma'' \<mapsto> Dict [''cell_1'' \<mapsto> [- 70, - 70]]]"

subsection \<open>Closed forms used in the proofs\<close>

text \<open>
  The markers present once a cycle has revealed \<open>idx\<close> samples, and the scene that
  \<open>update\<close> leaves behind, field by field.
\<close>

definition markers_at :: "nat \<Rightarrow> real list" where
  "markers_at idx =
     (if 2440 \<le> idx then [21, 26, 61] else if 1040 \<le> idx then [21, 26]
      else if 840 \<le> idx then [21] else [])"

definition shown :: "nat \<Rightarrow> nat \<Rightarrow> world \<Rightarrow> world" where
  "shown step frame w =
     w\<lparr>line_wide := (take (reveal_idx step frame (length (time w))) (time w),
                      take (reveal_idx step frame (length (time w))) (V_wide w)),
       line_narrow := (take (reveal_idx step frame (length (time w))) (time w),
                      take (reveal_idx step frame (length (time w))) (V_narrow w)),
       stim_lines := fire_markers (reveal_idx step frame (length (time w))) (stim_lines w),
       summation_patch := (0 < reveal_idx step frame (length (time w)) \<and>
              20 \<le> time w ! (reveal_idx step frame (length (time w)) - 1) \<and>
              time w ! (reveal_idx step frame (length (time w)) - 1) \<le> 35)\<rparr>"

section \<open>Basic facts\<close>

text \<open>
  The three thresholds. In floating point \<^verbatim>\<open>21 / 0.025\<close>, \<^verbatim>\<open>26 / 0.025\<close> and
  \<^verbatim>\<open>61 / 0.025\<close> round to exactly 840.0, 1040.0 and 2440.0, the values of the real
  quotients.
\<close>

lemma thr21: "py_int (21 / dt) = 840"
  by (simp add: py_int_def dt_def)

lemma thr26: "py_int (26 / dt) = 1040"
  by (simp add: py_int_def dt_def)

lemma thr61: "py_int (61 / dt) = 2440"
  by (simp add: py_int_def dt_def)

lemma fire_markers_at: "i \<le> j \<Longrightarrow> fire_markers j (markers_at i) = markers_at j"
  by (simp add: fire_markers_def markers_at_def thr21 thr26 thr61 Let_def)

lemma fire_markers_Nil: "fire_markers j [] = markers_at j"
  by (simp add: fire_markers_def markers_at_def thr21 thr26 thr61 Let_def)

lemma py_index_last:
  "0 < idx \<Longrightarrow> idx \<le> length xs \<Longrightarrow> py_index xs (int idx - 1) = Inr (xs ! (idx - 1))"
  by (simp add: py_index_def nat_diff_distrib')

lemma reveal_idx_le: "reveal_idx step frame N \<le> N"
  by (simp add: reveal_idx_def)

lemma reveal_idx_mono: "f \<le> g \<Longrightarrow> reveal_idx step f N \<le> reveal_idx step g N"
  by (simp add: reveal_idx_def min_le_iff_disj)

lemma reveal_idx_0: "reveal_idx step 0 N = 0"
  by (simp add: reveal_idx_def)

text \<open>\<open>update\<close> never raises: the guarded read is always in range.\<close>

lemma update_with_eq: "update_with step frame w = Inr (shown step frame w)"
  by (simp add: update_with_def shown_def Let_def py_index_last reveal_idx_le)

lemma shown_data [simp]:
  "time (shown step f w) = time w"
  "V_wide (shown step f w) = V_wide w"
  "V_narrow (shown step f w) = V_narrow w"
  by (simp_all add: shown_def)

lemma shown_stim:
  "stim_lines (shown step f w) = fire_markers (reveal_idx step f (length (time w))) (stim_lines w)"
  by (simp add: shown_def)

lemma init_data [simp]:
  "time (init w) = time w"
  "V_wide (init w) = V_wide w"
  "V_narrow (init w) = V_narrow w"
  "stim_lines (init w) = []"
  "line_wide (init w) = ([], [])"
  "line_narrow (init w) = ([], [])"
  "summation_patch (init w) = False"
  by (simp_all add: init_def)

lemma run_frames_append:
  "run_frames step (fs @ gs) w =
     (case run_frames step fs w of Inl e \<Rightarrow> Inl e | Inr w' \<Rightarrow> run_frames step gs w')"
  by (induction fs arbitrary: w) (simp_all add: update_with_eq)

lemma cycle_upto_0: "cycle_upto step w 0 = Inr (init w)"
  by (simp add: cycle_upto_def)

lemma cycle_upto_step:
  "cycle_upto step w (Suc k) =
     (case cycle_upto step w k of Inl e \<Rightarrow> Inl e | Inr b \<Rightarrow> Inr (shown step k b))"
  by (simp add: cycle_upto_def run_frames_append update_with_eq split: sum.splits)

text \<open>
  The scene before and after frame \<open>k\<close> of a cycle: the data is untouched and the marker
  list is determined by the reveal index of the previous frame.
\<close>

lemma cycle_upto_Suc:
  "\<exists>b. cycle_upto step w k = Inr b \<and> cycle_upto step w (Suc k) = Inr (shown step k b) \<and>
       time b = time w \<and> V_wide b = V_wide w \<and> V_narrow b = V_narrow w \<and>
       stim_lines b =
         (if k = 0 then [] else markers_at (reveal_idx step (k - 1) (length (time w))))"
proof (induction k)
  case 0
  show ?case by (simp add: cycle_upto_step cycle_upto_0)
next
  case (Suc k)
  then obtain b where b: "cycle_upto step w k = Inr b"
    "cycle_upto step w (Suc k) = Inr (shown step k b)"
    "time b = time w" "V_wide b = V_wide w" "V_narrow b = V_narrow w"
    "stim_lines b =
       (if k = 0 then [] else markers_at (reveal_idx step (k - 1) (length (time w))))"
    by blast
  have st: "stim_lines (shown step k b) = markers_at (reveal_idx step k (length (time w)))"
  proof (cases "k = 0")
    case True
    then show ?thesis using b by (simp add: shown_stim fire_markers_Nil)
  next
    case False
    then show ?thesis using b
      by (simp add: shown_stim fire_markers_at reveal_idx_mono)
  qed
  have "cycle_upto step w (Suc (Suc k)) = Inr (shown step (Suc k) (shown step k b))"
    using b(2) by (simp add: cycle_upto_step [of step w "Suc k"])
  then show ?case using b st by simp
qed


lemma ceil_div_mult_ge: "0 < step \<Longrightarrow> N \<le> ceil_div N step * step"
proof -
  assume s: "0 < step"
  have "(N + step - 1) mod step < step" using s by simp
  moreover have "N + step - 1 = (N + step - 1) div step * step + (N + step - 1) mod step"
    by simp
  ultimately have "N + step - 1 < (N + step - 1) div step * step + step" by linarith
  then show ?thesis using s by (simp add: ceil_div_def)
qed

lemma newly_fired_eq:
  "newly_fired step w f =
     drop (length (if f = 0 then [] else markers_at (reveal_idx step (f - 1) (length (time w)))))
          (markers_at (reveal_idx step f (length (time w))))"
proof -
  obtain b where b: "cycle_upto step w f = Inr b" "time b = time w"
    "stim_lines b = (if f = 0 then [] else markers_at (reveal_idx step (f - 1) (length (time w))))"
    using cycle_upto_Suc [of step w f] by blast
  have "stim_lines (shown step f b) = markers_at (reveal_idx step f (length (time w)))"
    using b by (simp add: shown_stim fire_markers_Nil fire_markers_at reveal_idx_mono)
  then show ?thesis using b by (simp add: newly_fired_def update_with_eq)
qed

lemma drop_markers_21:
  "i \<le> j \<Longrightarrow> 21 \<in> set (drop (length (markers_at i)) (markers_at j)) \<longleftrightarrow> i < 840 \<and> 840 \<le> j"
  by (simp add: markers_at_def)

lemma drop_markers_26:
  "i \<le> j \<Longrightarrow> 26 \<in> set (drop (length (markers_at i)) (markers_at j)) \<longleftrightarrow> i < 1040 \<and> 1040 \<le> j"
  by (simp add: markers_at_def)

lemma drop_markers_61:
  "i \<le> j \<Longrightarrow> 61 \<in> set (drop (length (markers_at i)) (markers_at j)) \<longleftrightarrow> i < 2440 \<and> 2440 \<le> j"
  by (simp add: markers_at_def)

lemma markers_at_small: "i < 840 \<Longrightarrow> markers_at i = []"
  by (simp add: markers_at_def)

lemma before_iff:
  "0 < f \<Longrightarrow> (\<forall>g<f. reveal_idx step g N < K) \<longleftrightarrow> reveal_idx step (f - 1) N < K"
proof
  assume "0 < f" "\<forall>g<f. reveal_idx step g N < K"
  then show "reveal_idx step (f - 1) N < K" by simp
next
  assume f: "0 < f" and h: "reveal_idx step (f - 1) N < K"
  show "\<forall>g<f. reveal_idx step g N < K"
  proof (intro allI impI)
    fix g assume "g < f"
    then have "g \<le> f - 1" by simp
    then have "reveal_idx step g N \<le> reveal_idx step (f - 1) N" by (rule reveal_idx_mono)
    with h show "reveal_idx step g N < K" by simp
  qed
qed

lemma fired_iff_21:
  "21 \<in> set (newly_fired step w f) \<longleftrightarrow>
     840 \<le> reveal_idx step f (length (time w)) \<and> (\<forall>g<f. reveal_idx step g (length (time w)) < 840)"
proof (cases "f = 0")
  case True
  then show ?thesis by (simp add: newly_fired_eq reveal_idx_0 markers_at_small)
next
  case False
  then show ?thesis
    by (simp add: newly_fired_eq before_iff drop_markers_21 reveal_idx_mono conj_commute)
qed

lemma fired_iff_26:
  "26 \<in> set (newly_fired step w f) \<longleftrightarrow>
     1040 \<le> reveal_idx step f (length (time w)) \<and> (\<forall>g<f. reveal_idx step g (length (time w)) < 1040)"
proof (cases "f = 0")
  case True
  then show ?thesis by (simp add: newly_fired_eq reveal_idx_0 markers_at_small)
next
  case False
  then show ?thesis
    by (simp add: newly_fired_eq before_iff drop_markers_26 reveal_idx_mono conj_commute)
qed

lemma fired_iff_61:
  "61 \<in> set (newly_fired step w f) \<longleftrightarrow>
     2440 \<le> reveal_idx step f (length (time w)) \<and> (\<forall>g<f. reveal_idx step g (length (time w)) < 2440)"
proof (cases "f = 0")
  case True
  then show ?thesis by (simp add: newly_fired_eq reveal_idx_0 markers_at_small)
next
  case False
  then show ?thesis
    by (simp add: newly_fired_eq before_iff drop_markers_61 reveal_idx_mono conj_commute)
qed

lemma first_reaching_ex1:
  assumes "0 < step" "K \<le> N"
  shows "\<exists>!f. first_reaching step N K f"
proof (rule ex_ex1I)
  let ?P = "\<lambda>f. K \<le> reveal_idx step f N"
  have "K \<le> K * step" using assms by simp
  then have PK: "?P K" using assms by (simp add: reveal_idx_def)
  have "?P (LEAST f. ?P f)" using PK by (rule LeastI)
  moreover have "\<forall>g<(LEAST f. ?P f). reveal_idx step g N < K"
    using not_less_Least [of _ ?P] by (auto simp: not_le)
  ultimately show "\<exists>f. first_reaching step N K f"
    unfolding first_reaching_def by blast
next
  fix f f'
  assume a: "first_reaching step N K f" "first_reaching step N K f'"
  show "f = f'"
  proof (rule ccontr)
    assume "f \<noteq> f'"
    then consider "f < f'" | "f' < f" by linarith
    then show False
    proof cases
      case 1
      then show ?thesis using a unfolding first_reaching_def
        by (metis not_le)
    next
      case 2
      then show ?thesis using a unfolding first_reaching_def
        by (metis not_le)
    qed
  qed
qed

lemma first_reaching_bound:
  assumes "0 < step" "K \<le> N" "first_reaching step N K f"
  shows "f \<le> ceil_div K step"
proof (rule ccontr)
  assume "\<not> f \<le> ceil_div K step"
  then have "ceil_div K step < f" by simp
  then have "reveal_idx step (ceil_div K step) N < K"
    using assms(3) by (simp add: first_reaching_def)
  moreover have "K \<le> ceil_div K step * step" using assms(1) by (rule ceil_div_mult_ge)
  ultimately show False using assms(2) by (simp add: reveal_idx_def)
qed

lemma reveal_idx_full_iff:
  "0 < step \<Longrightarrow> reveal_idx step f N = N \<longleftrightarrow> ceil_div N step \<le> f"
proof -
  assume s: "0 < step"
  have "ceil_div N step \<le> f \<longleftrightarrow> N \<le> f * step"
  proof
    assume "ceil_div N step \<le> f"
    then have "ceil_div N step * step \<le> f * step" by simp
    moreover have "N \<le> ceil_div N step * step"
      using s by (rule ceil_div_mult_ge)
    ultimately show "N \<le> f * step" by linarith
  next
    assume "N \<le> f * step"
    then have "N + step - 1 < (f + 1) * step" using s by simp
    then have "(N + step - 1) div step < f + 1"
      using s by (simp add: less_mult_imp_div_less)
    then show "ceil_div N step \<le> f" by (simp add: ceil_div_def)
  qed
  then show ?thesis by (auto simp: reveal_idx_def min_def)
qed

lemma recording_length: "length (time (recording n h)) = n"
  by (simp add: recording_def fixed_step_times_def)

lemma fixed_step_times_nth: "i < n \<Longrightarrow> fixed_step_times n h ! i = real i * h"
  by (simp add: fixed_step_times_def)

lemma recording_time: "time (recording n h) = fixed_step_times n h"
  by (simp add: recording_def)

lemma probe_idx: "reveal_idx 16 1 (length (time (probe t))) = 1"
  by (simp add: reveal_idx_def probe_def)

lemma probe_time: "time (probe t) = [t]"
  by (simp add: probe_def)

lemma fired_iff_first_reaching:
  assumes "T \<in> {21, 26, 61}" and "K = nat (py_int (T / dt))"
  shows "T \<in> set (newly_fired step w f) \<longleftrightarrow> first_reaching step (length (time w)) K f"
proof -
  consider "T = 21" "K = 840" | "T = 26" "K = 1040" | "T = 61" "K = 2440"
    using assms by (auto simp: thr21 thr26 thr61)
  then show ?thesis
  proof cases
    case 1
    then show ?thesis by (simp add: fired_iff_21 first_reaching_def)
  next
    case 2
    then show ?thesis by (simp add: fired_iff_26 first_reaching_def)
  next
    case 3
    then show ?thesis by (simp add: fired_iff_61 first_reaching_def)
  qed
qed

lemma first_reaching_65: "first_reaching 16 8000 1040 65"
  by (simp add: first_reaching_def reveal_idx_def)



lemma prefix_three:
  "prefix sl [a, b, c] \<longleftrightarrow> sl = [] \<or> sl = [a] \<or> sl = [a, b] \<or> sl = [a, b, c]"
  by (auto simp: prefix_Cons)

lemma fire_markers_prefix:
  assumes "prefix sl [21, 26, 61]"
  shows "prefix sl (fire_markers idx sl) \<and> prefix (fire_markers idx sl) [21, 26, 61]"
proof -
  consider "sl = []" | "sl = [21]" | "sl = [21, 26]" | "sl = [21, 26, 61]"
    using assms by (auto simp: prefix_three)
  then show ?thesis
    by cases (simp_all add: fire_markers_def Let_def thr21 thr26 thr61)
qed

lemma run_frames_prefix:
  "prefix (stim_lines w) [21, 26, 61] \<Longrightarrow>
   \<exists>b. run_frames step fs w = Inr b \<and> prefix (stim_lines b) [21, 26, 61]"
proof (induction fs arbitrary: w)
  case Nil
  then show ?case by simp
next
  case (Cons f fs)
  have "prefix (stim_lines (shown step f w)) [21, 26, 61]"
    using Cons.prems by (simp add: shown_stim fire_markers_prefix)
  then show ?case using Cons.IH [of "shown step f w"] by (simp add: update_with_eq)
qed

lemma tick_frame:
  "frame_seq p = f # fs \<Longrightarrow> tick p = Inr \<lparr>frame_seq = fs, scene = shown 16 f (scene p)\<rparr>"
  by (simp add: tick_def update_def update_with_eq)

lemma tick_restart:
  "frame_seq p = [] \<Longrightarrow>
   tick p = Inr \<lparr>frame_seq = [0..<num_frames (scene p)], scene = init (scene p)\<rparr>"
  by (simp add: tick_def)

lemma tick_total: "\<exists>p'. tick p = Inr p' \<and> time (scene p') = time (scene p)"
  by (cases "frame_seq p") (simp_all add: tick_frame tick_restart)

lemma ticks_total: "\<exists>p'. ticks n p = Inr p' \<and> time (scene p') = time (scene p)"
proof (induction n arbitrary: p)
  case 0
  show ?case by simp
next
  case (Suc n)
  obtain q where q: "tick p = Inr q" "time (scene q) = time (scene p)"
    using tick_total by blast
  then show ?case using Suc.IH [of q] by simp
qed

lemma ticks_frames:
  "k \<le> length (frame_seq p) \<Longrightarrow>
   ticks k p =
     (case run_frames 16 (take k (frame_seq p)) (scene p) of
        Inl e \<Rightarrow> Inl e
      | Inr w \<Rightarrow> Inr \<lparr>frame_seq = drop k (frame_seq p), scene = w\<rparr>)"
proof (induction k arbitrary: p)
  case 0
  show ?case by simp
next
  case (Suc k)
  then obtain f fs where fs: "frame_seq p = f # fs" by (cases "frame_seq p") auto
  let ?q = "\<lparr>frame_seq = fs, scene = shown 16 f (scene p)\<rparr>"
  have "k \<le> length (frame_seq ?q)" using Suc.prems fs by simp
  then have "ticks k ?q =
     (case run_frames 16 (take k (frame_seq ?q)) (scene ?q) of
        Inl e \<Rightarrow> Inl e
      | Inr w \<Rightarrow> Inr \<lparr>frame_seq = drop k (frame_seq ?q), scene = w\<rparr>)"
    by (rule Suc.IH)
  then show ?case using fs by (simp add: tick_frame update_with_eq split: sum.splits)
qed

lemma ticks_cycle:
  "ticks (num_frames w) (start w) =
     (case cycle_upto 16 w (num_frames w) of
        Inl e \<Rightarrow> Inl e | Inr b \<Rightarrow> Inr \<lparr>frame_seq = [], scene = b\<rparr>)"
  using ticks_frames [of "num_frames w" "start w"]
  by (simp add: start_def cycle_upto_def split: sum.splits)

lemma last_frame_full:
  "reveal_idx 16 (num_frames w - Suc 0) (length (time w)) = length (time w)"
  by (simp add: reveal_idx_def num_frames_def)

lemma cycle_end:
  "\<exists>b. cycle_upto 16 w (num_frames w) = Inr b \<and>
       time b = time w \<and> V_wide b = V_wide w \<and> V_narrow b = V_narrow w \<and>
       line_wide b = (time w, take (length (time w)) (V_wide w)) \<and>
       line_narrow b = (time w, take (length (time w)) (V_narrow w)) \<and>
       stim_lines b = markers_at (length (time w))"
proof -
  have F: "num_frames w = Suc (num_frames w - 1)" by (simp add: num_frames_def)
  obtain c where c: "cycle_upto 16 w (num_frames w - 1) = Inr c"
    "cycle_upto 16 w (Suc (num_frames w - 1)) = Inr (shown 16 (num_frames w - 1) c)"
    "time c = time w" "V_wide c = V_wide w" "V_narrow c = V_narrow w"
    using cycle_upto_Suc [of 16 w "num_frames w - 1"] by blast
  obtain d where d: "cycle_upto 16 w (Suc (num_frames w - 1)) = Inr d"
    "stim_lines d = markers_at (reveal_idx 16 (num_frames w - 1) (length (time w)))"
    using cycle_upto_Suc [of 16 w "Suc (num_frames w - 1)"] by auto
  have e: "d = shown 16 (num_frames w - 1) c" using c(2) d(1) by simp
  have "line_wide d = (time w, take (length (time w)) (V_wide w))"
    "line_narrow d = (time w, take (length (time w)) (V_narrow w))"
    unfolding e by (simp_all add: shown_def c last_frame_full)
  moreover have "time d = time w" "V_wide d = V_wide w" "V_narrow d = V_narrow w"
    unfolding e by (simp_all add: c)
  moreover have "stim_lines d = markers_at (length (time w))"
    using d(2) by (simp add: last_frame_full)
  ultimately show ?thesis using d(1) F by simp
qed

lemma fire_markers_0: "fire_markers 0 sl = sl"
  by (simp add: fire_markers_def thr21 thr26 thr61)




section \<open>The claims\<close>

subsection \<open>The highlight window\<close>

text \<open>
  C1 (as amended). After any call of \<open>update\<close> the highlight patch is visible exactly
  when at least one sample is revealed and the time stamp \<open>t\<close> of the last revealed
  sample satisfies \<open>20 \<le> t \<le> 35\<close>: the window is closed at both ends, as the test
  \<^verbatim>\<open>20 <= time[idx-1] <= 35\<close> of both scripts has it.
\<close>

theorem highlight_window_closed:
  "\<exists>w'. update_with step frame w = Inr w' \<and>
     summation_patch w' =
       (0 < reveal_idx step frame (length (time w)) \<and>
        20 \<le> time w ! (reveal_idx step frame (length (time w)) - 1) \<and>
        time w ! (reveal_idx step frame (length (time w)) - 1) \<le> 35)"
  by (simp add: update_with_eq shown_def)

text \<open>
  At the probes 19.9, 25.0 and 35.0 the patch is hidden, shown and shown.
\<close>

theorem highlight_window_closed_witness:
  "(\<exists>w'. update_with 16 1 (probe 19.9) = Inr w' \<and> \<not> summation_patch w') \<and>
   (\<exists>w'. update_with 16 1 (probe 25) = Inr w' \<and> summation_patch w') \<and>
   (\<exists>w'. update_with 16 1 (probe 35) = Inr w' \<and> summation_patch w')"
  using highlight_window_closed [of 16 1 "probe 19.9", unfolded probe_idx]
    highlight_window_closed [of 16 1 "probe 25", unfolded probe_idx]
    highlight_window_closed [of 16 1 "probe 35", unfolded probe_idx]
  by (simp add: probe_time)

text \<open>
  The half-open reading fails at the right end: with \<^verbatim>\<open>time = [35.0]\<close> and frame 1,
  \<open>idx = min 16 1 = 1\<close>, the last revealed time is 35.0 and the patch is made visible.
\<close>

theorem highlight_at_35_counterexample:
  "\<not> isl (update 1 (probe 35)) \<and> summation_patch (projr (update 1 (probe 35)))"
  unfolding update_def update_with_eq shown_def probe_idx
  by (simp add: probe_time)

subsection \<open>One-shot markers\<close>

text \<open>
  C2 (as amended). For each of the thresholds \<open>T = 21, 26, 61\<close>, with the sample index
  \<open>K = int(T / dt)\<close>, the tick of frame \<open>f\<close> of a cycle appends the marker of \<open>T\<close> exactly
  when \<open>f\<close> is the first frame of the cycle whose reveal index is at least \<open>K\<close>, whatever
  the step. So it fires on at most one tick; on exactly one when \<open>step > 0\<close> and the
  recording has at least \<open>K\<close> samples, and with the scripts' step of 16 that tick lies
  within the \<open>num_frames\<close> frames of the cycle. The test is on the reveal index, not on
  the time stamp of the last revealed sample.
\<close>

theorem trigger_fires_on_first_reaching_tick:
  assumes "T \<in> {21, 26, 61}" and "K = nat (py_int (T / dt))"
  shows "(T \<in> set (newly_fired step w f) \<longleftrightarrow> first_reaching step (length (time w)) K f) \<and>
         (0 < step \<and> K \<le> length (time w) \<longrightarrow> (\<exists>!f. T \<in> set (newly_fired step w f))) \<and>
         (K \<le> length (time w) \<longrightarrow> (\<exists>f<num_frames w. T \<in> set (newly_fired 16 w f)))"
proof (intro conjI impI)
  show "T \<in> set (newly_fired step w f) \<longleftrightarrow> first_reaching step (length (time w)) K f"
    using assms by (rule fired_iff_first_reaching)
next
  assume "0 < step \<and> K \<le> length (time w)"
  then have "\<exists>!f. first_reaching step (length (time w)) K f"
    by (simp add: first_reaching_ex1)
  then show "\<exists>!f. T \<in> set (newly_fired step w f)"
    by (simp add: fired_iff_first_reaching [OF assms])
next
  assume K: "K \<le> length (time w)"
  then obtain f where f: "first_reaching 16 (length (time w)) K f"
    using first_reaching_ex1 [of 16 K "length (time w)"] by auto
  then have "f \<le> ceil_div K 16" using K by (simp add: first_reaching_bound)
  moreover have "ceil_div K 16 < num_frames w"
    using K by (simp add: ceil_div_def num_frames_def)
  ultimately have "f < num_frames w" by simp
  then show "\<exists>f<num_frames w. T \<in> set (newly_fired 16 w f)"
    using f by (auto simp: fired_iff_first_reaching [OF assms])
qed

theorem trigger_fires_on_first_reaching_tick_witness:
  "26 \<in> set (newly_fired 16 (recording 8000 dt) 65) \<and>
   (\<exists>!f. 26 \<in> set (newly_fired 16 (recording 8000 dt) f)) \<and>
   (\<exists>f<num_frames (recording 8000 dt). 26 \<in> set (newly_fired 16 (recording 8000 dt) f))"
  using trigger_fires_on_first_reaching_tick [of 26 1040 16 "recording 8000 dt" 65]
  by (simp add: thr26 recording_length first_reaching_65)

text \<open>
  On a recording of 8000 samples spaced 0.025 apart, frame 65 reveals \<open>idx = 1040\<close>
  samples and appends the marker of 26, although the last revealed sample, number 1039,
  has the time stamp 25.975: the marker fires one tick before the revealed time reaches
  its threshold (frame 66, \<open>idx = 1056\<close>).
\<close>

theorem trigger_26_fires_early_counterexample:
  "26 \<in> set (newly_fired 16 (recording 8000 dt) 65) \<and>
   time (recording 8000 dt) ! (reveal_idx 16 65 (length (time (recording 8000 dt))) - 1) < 26"
proof -
  have "reveal_idx 16 65 (length (time (recording 8000 dt))) = 1040"
    by (simp add: recording_length reveal_idx_def)
  moreover have "time (recording 8000 dt) ! 1039 < 26"
    by (simp add: recording_time fixed_step_times_nth dt_def)
  moreover have "26 \<in> set (newly_fired 16 (recording 8000 dt) 65)"
    using first_reaching_65 by (simp add: fired_iff_26 recording_length first_reaching_def)
  ultimately show ?thesis by simp
qed

subsection \<open>A missing channel\<close>

text \<open>
  C3. When \<^verbatim>\<open>sim.allSimData['V_soma']\<close> has no entry for \<open>cell_0\<close>, the two summation
  scripts substitute the empty sequence and keep the other channel, while
  \<^verbatim>\<open>Excitation-inhibition_AMPA_GABA.py\<close> subscripts the dictionary and raises
  \<^verbatim>\<open>KeyError\<close>.
\<close>

theorem missing_channel_KeyError:
  "load_V_A_B cell_0_missing = Inl KeyError \<and>
   load_V_wide_narrow cell_0_missing = ([], [- 70, - 70])"
  by (simp add: load_V_A_B_def V_soma_item_def load_V_wide_narrow_def dict_get_def cell_0_missing_def)

subsection \<open>The reveal index\<close>

text \<open>
  C4 (as amended). For every trace length \<open>N\<close> and every \<open>step > 0\<close> the reveal indices
  of the calls of a cycle are non-decreasing, and the index equals \<open>N\<close> exactly from
  frame number \<open>ceil (N / step)\<close> on. Frames are numbered from 0, so that frame is call
  number \<open>ceil (N / step) + 1\<close>; with the scripts' step of 16 it lies within the
  \<open>num_frames\<close> frames of the cycle.
\<close>

theorem idx_seq_reaches_N:
  assumes "0 < step"
  shows "sorted (idx_seq step N F) \<and>
         (\<forall>k < F. idx_seq step N F ! k = N \<longleftrightarrow> ceil_div N step \<le> k) \<and>
         ceil_div (length (time w)) 16 < num_frames w"
proof -
  have "sorted (idx_seq step N F)"
    unfolding idx_seq_def
    by (simp add: sorted_map sorted_wrt_iff_nth_less reveal_idx_mono)
  moreover have "\<forall>k < F. idx_seq step N F ! k = N \<longleftrightarrow> ceil_div N step \<le> k"
    using assms by (simp add: idx_seq_def reveal_idx_full_iff)
  moreover have "ceil_div (length (time w)) 16 < num_frames w"
    by (simp add: ceil_div_def num_frames_def)
  ultimately show ?thesis by blast
qed

theorem idx_seq_reaches_N_witness:
  "sorted (idx_seq 16 32 24) \<and> idx_seq 16 32 24 ! 2 = 32 \<and> idx_seq 16 32 24 ! 1 \<noteq> 32
   \<and> idx_seq 16 32 24 ! 0 \<noteq> 32 \<and> ceil_div 8000 16 < num_frames (recording 8000 dt)"
  using idx_seq_reaches_N [where step = 16 and N = 32 and F = 24 and w = "recording 8000 dt"]
  by (simp add: ceil_div_def recording_length)

text \<open>
  With \<open>N = 32\<close> and \<open>step = 16\<close> the call number \<open>ceil (32 / 16) = 2\<close> is frame 1 and
  computes \<open>idx = 16\<close>, not 32.
\<close>

theorem idx_seq_call_counterexample:
  "idx_seq 16 32 24 ! (ceil_div 32 16 - 1) \<noteq> 32"
  by (simp add: idx_seq_def ceil_div_def reveal_idx_def)

subsection \<open>Restart\<close>

text \<open>
  C5. After the \<open>num_frames\<close> ticks of a cycle the frame sequence is used up and the
  last frame shown is fully revealed. The next tick restarts: it calls \<open>init\<close>, which
  empties the marker list, and leaves the recorded data as it was. The tick after that
  runs frame 0, whose reveal index is 0: nothing is revealed and no marker is present.
\<close>

theorem restart_resets_cycle:
  "\<exists>p1 p2 p3.
     ticks (num_frames w) (start w) = Inr p1 \<and> frame_seq p1 = [] \<and>
     line_wide (scene p1) = (time w, take (length (time w)) (V_wide w)) \<and>
     line_narrow (scene p1) = (time w, take (length (time w)) (V_narrow w)) \<and>
     tick p1 = Inr p2 \<and> stim_lines (scene p2) = [] \<and>
     frame_seq p2 = [0..<num_frames w] \<and>
     time (scene p2) = time w \<and> V_wide (scene p2) = V_wide w \<and>
     V_narrow (scene p2) = V_narrow w \<and>
     tick p2 = Inr p3 \<and> reveal_idx 16 (hd (frame_seq p2)) (length (time (scene p2))) = 0 \<and>
     line_wide (scene p3) = ([], []) \<and> line_narrow (scene p3) = ([], []) \<and>
     stim_lines (scene p3) = [] \<and>
     time (scene p3) = time w \<and> V_wide (scene p3) = V_wide w \<and>
     V_narrow (scene p3) = V_narrow w"
proof -
  obtain b where b: "cycle_upto 16 w (num_frames w) = Inr b"
    "time b = time w" "V_wide b = V_wide w" "V_narrow b = V_narrow w"
    "line_wide b = (time w, take (length (time w)) (V_wide w))"
    "line_narrow b = (time w, take (length (time w)) (V_narrow w))"
    using cycle_end [of w] by blast
  let ?p1 = "\<lparr>frame_seq = [], scene = b\<rparr>"
  let ?p2 = "\<lparr>frame_seq = [0..<num_frames w], scene = init b\<rparr>"
  let ?p3 = "\<lparr>frame_seq = [1..<num_frames w], scene = shown 16 0 (init b)\<rparr>"
  have F: "[0..<num_frames w] = 0 # [1..<num_frames w]"
    by (simp add: num_frames_def upt_conv_Cons)
  have 1: "ticks (num_frames w) (start w) = Inr ?p1" using b(1) by (simp add: ticks_cycle)
  have 2: "tick ?p1 = Inr ?p2" by (simp add: tick_restart num_frames_def b)
  have 3: "tick ?p2 = Inr ?p3" using F by (simp add: tick_frame)
  have 4: "hd (frame_seq ?p2) = 0" using F by simp
  have 5: "line_wide (shown 16 0 (init b)) = ([], [])"
    "line_narrow (shown 16 0 (init b)) = ([], [])"
    "stim_lines (shown 16 0 (init b)) = []"
    by (simp_all add: shown_def reveal_idx_0 fire_markers_Nil markers_at_def)
  show ?thesis
    apply (rule exI [of _ ?p1], rule exI [of _ ?p2], rule exI [of _ ?p3])
    using 1 2 3 4 5 b by (simp add: reveal_idx_0)
qed

theorem restart_resets_cycle_witness:
  "\<exists>p1 p2 p3. ticks 1020 (start (recording 8000 dt)) = Inr p1 \<and> frame_seq p1 = [] \<and>
      tick p1 = Inr p2 \<and> stim_lines (scene p2) = [] \<and> frame_seq p2 = [0..<1020] \<and>
      tick p2 = Inr p3 \<and> line_wide (scene p3) = ([], []) \<and>
      time (scene p3) = time (recording 8000 dt)"
proof -
  have nf: "num_frames (recording 8000 dt) = 1020"
    by (simp add: num_frames_def recording_length)
  show ?thesis
    using restart_resets_cycle [of "recording 8000 dt", unfolded nf] by blast
qed

subsection \<open>Scenario A\<close>



subsection \<open>Visible slices\<close>




subsection \<open>Empty data\<close>

text \<open>
  C8. With an empty time sequence every frame computes \<open>idx = 0\<close>, sets both lines to
  empty slices, appends no marker, hides the highlight and raises nothing. A tick either
  consumes one frame or, when the frames are used up, restarts once with a fresh
  sequence of 20 frames, so there is never more than one restart per tick; any number of
  ticks runs without an error.
\<close>

theorem empty_data_is_harmless:
  assumes "time (scene p) = []"
  shows "(\<forall>frame. reveal_idx 16 frame (length (time (scene p))) = 0 \<and>
            (\<exists>w'. update frame (scene p) = Inr w' \<and>
               line_wide w' = ([], []) \<and> line_narrow w' = ([], []) \<and>
               stim_lines w' = stim_lines (scene p) \<and> \<not> summation_patch w')) \<and>
         (\<exists>p'. tick p = Inr p' \<and> time (scene p') = [] \<and>
            ((\<exists>f. frame_seq p = f # frame_seq p') \<or>
             (frame_seq p = [] \<and> frame_seq p' = [0..<20] \<and> stim_lines (scene p') = []))) \<and>
         (\<forall>n. \<exists>p'. ticks n p = Inr p' \<and> time (scene p') = [])"
proof (intro conjI allI)
  fix frame
  show "reveal_idx 16 frame (length (time (scene p))) = 0"
    using assms by (simp add: reveal_idx_def)
  then show "\<exists>w'. update frame (scene p) = Inr w' \<and>
               line_wide w' = ([], []) \<and> line_narrow w' = ([], []) \<and>
               stim_lines w' = stim_lines (scene p) \<and> \<not> summation_patch w'"
    using assms by (simp add: update_def update_with_eq shown_def fire_markers_0)
next
  show "\<exists>p'. tick p = Inr p' \<and> time (scene p') = [] \<and>
            ((\<exists>f. frame_seq p = f # frame_seq p') \<or>
             (frame_seq p = [] \<and> frame_seq p' = [0..<20] \<and> stim_lines (scene p') = []))"
    using assms
    by (cases "frame_seq p") (simp_all add: tick_frame tick_restart num_frames_def)
next
  fix n
  show "\<exists>p'. ticks n p = Inr p' \<and> time (scene p') = []"
    using ticks_total [of n p] assms by simp
qed

theorem empty_data_is_harmless_witness:
  "(\<exists>w'. update 7 (scene (start (recording 0 dt))) = Inr w' \<and> line_wide w' = ([], []) \<and>
      stim_lines w' = [] \<and> \<not> summation_patch w') \<and>
   (\<exists>p'. ticks 100 (start (recording 0 dt)) = Inr p' \<and> time (scene p') = [])"
proof -
  have t: "time (scene (start (recording 0 dt))) = []"
    by (simp add: start_def recording_def fixed_step_times_def)
  have s: "stim_lines (scene (start (recording 0 dt))) = []"
    by (simp add: start_def)
  note h = empty_data_is_harmless [OF t]
  from h have "\<exists>w'. update 7 (scene (start (recording 0 dt))) = Inr w' \<and>
      line_wide w' = ([], []) \<and> stim_lines w' = stim_lines (scene (start (recording 0 dt))) \<and>
      \<not> summation_patch w'"
    by blast
  moreover from h have "\<exists>p'. ticks 100 (start (recording 0 dt)) = Inr p' \<and> time (scene p') = []"
    by blast
  ultimately show ?thesis using s by simp
qed

subsection \<open>No access out of range\<close>

text \<open>
  C9. For every frame number the reveal index is at most \<open>N\<close>, and equals \<open>N\<close> for
  every frame with \<open>frame * step \<ge> N\<close>. Hence the guarded read \<^verbatim>\<open>time[idx-1]\<close> has
  an index in \<open>[0, N)\<close> and returns that sample, the prefix slices stay within their
  sequences, \<open>update\<close> returns normally, and so does any number of ticks.
\<close>

theorem reveal_idx_in_range:
  assumes "idx = reveal_idx step frame (length (time w))"
  shows "idx \<le> length (time w) \<and>
         (length (time w) \<le> frame * step \<longrightarrow> idx = length (time w)) \<and>
         (0 < idx \<longrightarrow> 0 \<le> int idx - 1 \<and> int idx - 1 < int (length (time w)) \<and>
            py_index (time w) (int idx - 1) = Inr (time w ! (idx - 1))) \<and>
         length (take idx (time w)) = idx \<and>
         length (take idx (V_wide w)) \<le> length (V_wide w) \<and>
         length (take idx (V_narrow w)) \<le> length (V_narrow w) \<and>
         (\<exists>w'. update_with step frame w = Inr w') \<and>
         (\<forall>n. \<exists>p'. ticks n \<lparr>frame_seq = fs, scene = w\<rparr> = Inr p')"
proof -
  have le: "idx \<le> length (time w)" using assms by (simp add: reveal_idx_le)
  have "length (time w) \<le> frame * step \<longrightarrow> idx = length (time w)"
    using assms by (simp add: reveal_idx_def)
  moreover have "0 < idx \<longrightarrow> 0 \<le> int idx - 1 \<and> int idx - 1 < int (length (time w)) \<and>
            py_index (time w) (int idx - 1) = Inr (time w ! (idx - 1))"
    using le by (auto simp: py_index_last)
  moreover have "\<forall>n. \<exists>p'. ticks n \<lparr>frame_seq = fs, scene = w\<rparr> = Inr p'"
    using ticks_total by blast
  ultimately show ?thesis using le by (simp add: update_with_eq)
qed

theorem reveal_idx_in_range_witness:
  "reveal_idx 16 1019 (length (time (recording 8000 dt))) = 8000 \<and>
   py_index (time (recording 8000 dt)) 7999 = Inr (time (recording 8000 dt) ! 7999) \<and>
   (\<exists>w'. update_with 16 1019 (recording 8000 dt) = Inr w')"
proof -
  have i: "8000 = reveal_idx 16 1019 (length (time (recording 8000 dt)))"
    by (simp add: recording_length reveal_idx_def)
  show ?thesis
    using reveal_idx_in_range [OF i, of "[]"] i by (simp add: recording_length)
qed

subsection \<open>Order of the markers\<close>

text \<open>
  C10. After any sequence of frames since \<open>init\<close>, the marker list before and after a
  further call of \<open>update\<close> is an initial segment of \<open>[21, 26, 61]\<close>, the later one
  extending the earlier one. So the number of markers never decreases and never exceeds
  3, and a marker is present only together with all markers before it in the list, also
  when one call crosses several thresholds at once.
\<close>

theorem markers_in_list_order:
  "\<exists>b a. run_frames step fs (init w) = Inr b \<and> update_with step f b = Inr a \<and>
     prefix (stim_lines b) (stim_lines a) \<and> prefix (stim_lines a) [21, 26, 61] \<and>
     length (stim_lines b) \<le> length (stim_lines a) \<and> length (stim_lines a) \<le> 3"
proof -
  obtain b where b: "run_frames step fs (init w) = Inr b" "prefix (stim_lines b) [21, 26, 61]"
    using run_frames_prefix [of "init w" step fs] by auto
  let ?a = "shown step f b"
  have p: "prefix (stim_lines b) (stim_lines ?a)" "prefix (stim_lines ?a) [21, 26, 61]"
    using b(2) by (simp_all add: shown_stim fire_markers_prefix)
  have "length (stim_lines b) \<le> length (stim_lines ?a)" using p(1) by (rule prefix_length_le)
  moreover have "length (stim_lines ?a) \<le> 3" using prefix_length_le [OF p(2)] by simp
  ultimately show ?thesis using b p by (simp add: update_with_eq)
qed

theorem markers_in_list_order_witness:
  "\<exists>a. update_with 16 200 (init (recording 8000 dt)) = Inr a \<and> stim_lines a = [21, 26, 61]"
proof -
  have "reveal_idx 16 200 (length (time (recording 8000 dt))) = 3200"
    by (simp add: recording_length reveal_idx_def)
  then have "stim_lines (shown 16 200 (init (recording 8000 dt))) = [21, 26, 61]"
    by (simp add: shown_stim fire_markers_Nil markers_at_def)
  then show ?thesis
    using markers_in_list_order [of 16 "[]" "recording 8000 dt" 200]
    by (simp add: update_with_eq)
qed

end
